theory Spec2Isabelle
  imports Main
begin

section \<open>Data handled by the chat page\<close>

text \<open>
  The records follow the fields that \<^verbatim>\<open>ChatPage.tsx\<close> and the layout's
  \<^verbatim>\<open>onMessageReceived\<close> read from the types \<^verbatim>\<open>Reaction\<close>, \<^verbatim>\<open>Message\<close>,
  \<^verbatim>\<open>Channel\<close> and \<^verbatim>\<open>User\<close>. Identifiers are JavaScript numbers and are
  modelled as \<open>int\<close>; an optional field (absent, \<^verbatim>\<open>undefined\<close> or \<^verbatim>\<open>null\<close>)
  is an \<open>option\<close>. Times are milliseconds since the epoch.
\<close>

record reaction =
  reaction_user_id :: int
  reaction_emoji :: string
  reaction_username :: string
  reaction_avatar_url :: "string option"

record message =
  msg_id :: int
  msg_channel_id :: int
  msg_user_id :: int
  msg_username :: string
  msg_content :: string
  msg_parent_id :: "int option"
  msg_reply_count :: "int option"
  msg_reactions :: "reaction list option"

record channel =
  ch_id :: int
  ch_mute_until :: "int option"
  ch_others_read_id :: "int option"
  ch_online_count :: int

record member =
  member_id :: int
  member_is_online :: "bool option"
  member_last_seen :: "int option"

record user =
  u_id :: int
  u_notify_sound :: "bool option"
  u_notify_browser :: "bool option"

record typing_entry =
  typing_name :: string
  typing_timestamp :: int

datatype presence_status = Online | Offline

text \<open>
  The union \<^verbatim>\<open>WebSocketMessage\<close>. The last two alternatives of the union (a
  \<^verbatim>\<open>Message\<close> tagged \<^verbatim>\<open>'new_message'\<close>, and a \<^verbatim>\<open>Message\<close> with no tag) are
  one constructor that carries the tag as it arrived: \<open>None\<close> when the frame has no
  \<^verbatim>\<open>type\<close>, \<open>Some s\<close> when it is the string \<open>s\<close>. The frame is cast, not
  validated, so \<open>MessageFrame (Some s) m\<close> also stands for a frame whose tag \<open>s\<close> is
  none of the seven tags of the other constructors.
\<close>

datatype WebSocketMessage =
    Typing int string string bool
  | ReactionAdded int reaction
  | ReactionRemoved int int string
  | Presence int
  | MessageDeleted int
  | ReadReceipt int int int
  | UserPresence int presence_status
  | MessageFrame "string option" message

text \<open>Calls the chat page makes on its collaborators (mutations, REST, the console).\<close>

datatype call =
    MarkRead int
  | ScrollToBottom
  | ApiDeleteReaction int string
  | ApiPostReaction int string
  | ConsoleError string

text \<open>
  The state of the component: its \<^verbatim>\<open>useState\<close> and \<^verbatim>\<open>useRef\<close> cells, and the
  two query caches its socket handler writes (\<^verbatim>\<open>['channel', id]\<close> and
  \<^verbatim>\<open>['channel_members', id]\<close>). \<open>typingTimeouts\<close> holds the pending expiry timers
  of \<^verbatim>\<open>typingTimeoutRef\<close> in the order in which they were set: for each, the user
  whose entry it removes and the time at which it fires.
\<close>

record chat_page =
  messages :: "message list"
  typingUsers :: "int \<rightharpoonup> typing_entry"
  typingTimeouts :: "(int \<times> int) list"
  initialLastReadId :: "int option"
  activeThread :: "message option"
  showParticipants :: bool
  isInitialLoad :: bool
  prevChannelId :: "int option"
  channelCache :: "int \<rightharpoonup> channel"
  membersCache :: "int \<rightharpoonup> member list"

text \<open>
  What the handler closes over: the route's channel id, as the number the handler
  compares with (\<^verbatim>\<open>Number(channelId)\<close>; \<open>None\<close> when the route has none), and the
  signed-in user.
\<close>

record chat_env =
  channelId :: "int option"
  current_user :: "user option"

section \<open>JavaScript idioms\<close>

text \<open>\<^verbatim>\<open>x || 0\<close> on an optional number.\<close>

fun or_zero :: "int option \<Rightarrow> int" where
  "or_zero None = 0"
| "or_zero (Some n) = n"

text \<open>Truthiness of an optional number: absent and \<open>0\<close> are falsy.\<close>

fun truthy_num :: "int option \<Rightarrow> bool" where
  "truthy_num None = False"
| "truthy_num (Some n) = (n \<noteq> 0)"

text \<open>\<^verbatim>\<open>!data.type\<close>: an absent tag and the empty string are falsy.\<close>

fun falsy_type :: "string option \<Rightarrow> bool" where
  "falsy_type None = True"
| "falsy_type (Some s) = (s = [])"

text \<open>\<^verbatim>\<open>m.reactions || []\<close>.\<close>

fun or_empty :: "'a list option \<Rightarrow> 'a list" where
  "or_empty None = []"
| "or_empty (Some xs) = xs"

text \<open>\<^verbatim>\<open>x === user?.id\<close>: never true when nobody is signed in.\<close>

fun is_user :: "int \<Rightarrow> user option \<Rightarrow> bool" where
  "is_user x None = False"
| "is_user x (Some u) = (x = u_id u)"

text \<open>
  \<^verbatim>\<open>queryClient.setQueryData(key, updater)\<close> where the updater returns \<^verbatim>\<open>old\<close>
  when there is no cached value.
\<close>

definition setQueryData :: "('k \<rightharpoonup> 'v) \<Rightarrow> 'k \<Rightarrow> ('v \<Rightarrow> 'v) \<Rightarrow> ('k \<rightharpoonup> 'v)" where
  "setQueryData cache k f = (case cache k of None \<Rightarrow> cache | Some v \<Rightarrow> cache(k \<mapsto> f v))"

section \<open>History pages\<close>

text \<open>
  \<^verbatim>\<open>getNextPageParam: (lastPage, allPages) => lastPage.length === 50 ? allPages.length : undefined\<close>
\<close>

definition getNextPageParam :: "message list \<Rightarrow> message list list \<Rightarrow> nat option" where
  "getNextPageParam lastPage allPages =
     (if length lastPage = 50 then Some (length allPages) else None)"

text \<open>
  The infinite query reports \<^verbatim>\<open>hasNextPage\<close> when \<^verbatim>\<open>getNextPageParam\<close>, applied to
  the last fetched page and all pages, returns a value. With no page fetched yet there
  is nothing to continue from.
\<close>

definition hasNextPage :: "message list list \<Rightarrow> bool" where
  "hasNextPage pages =
     (case pages of [] \<Rightarrow> False | _ \<Rightarrow> getNextPageParam (last pages) pages \<noteq> None)"

text \<open>
  \<^verbatim>\<open>handleScroll\<close>: whether the scroll event calls \<^verbatim>\<open>fetchNextPage\<close>.
\<close>

definition handleScroll :: "int \<Rightarrow> bool \<Rightarrow> message list list \<Rightarrow> bool" where
  "handleScroll scrollTop isFetchingNextPage pages =
     (scrollTop < 50 \<and> hasNextPage pages \<and> \<not> isFetchingNextPage)"

text \<open>The offset of the request for page \<open>pageParam\<close>: \<^verbatim>\<open>pageParam * 50\<close>.\<close>

definition page_offset :: "nat \<Rightarrow> nat" where
  "page_offset pageParam = pageParam * 50"

section \<open>The socket handler\<close>

subsection \<open>Typing\<close>

text \<open>\<^verbatim>\<open>full_name || username\<close>.\<close>

definition display_name :: "string \<Rightarrow> string \<Rightarrow> string" where
  "display_name full_name username = (if full_name = [] then username else full_name)"

text \<open>
  \<^verbatim>\<open>clearTimeout(typingTimeoutRef.current[user_id])\<close>: the user's timer is no longer
  pending. \<^verbatim>\<open>typingTimeoutRef.current[user_id] = setTimeout(..., 5000)\<close>: a timer for the
  user is pending, last in the queue.
\<close>

definition clearTimeout :: "int \<Rightarrow> (int \<times> int) list \<Rightarrow> (int \<times> int) list" where
  "clearTimeout uid timers = filter (\<lambda>timer. fst timer \<noteq> uid) timers"

definition setTimeout :: "int \<Rightarrow> int \<Rightarrow> (int \<times> int) list \<Rightarrow> (int \<times> int) list" where
  "setTimeout uid fires timers = timers @ [(uid, fires)]"

definition on_typing ::
  "chat_env \<Rightarrow> int \<Rightarrow> int \<Rightarrow> string \<Rightarrow> string \<Rightarrow> bool \<Rightarrow> chat_page \<Rightarrow> chat_page" where
  "on_typing env now uid full_name username is_typing st =
     (if is_user uid (current_user env) then st
      else if is_typing then
        st\<lparr>typingUsers := (typingUsers st)
               (uid \<mapsto> \<lparr>typing_name = display_name full_name username, typing_timestamp = now\<rparr>),
           typingTimeouts := setTimeout uid (now + 5000) (clearTimeout uid (typingTimeouts st))\<rparr>
      else
        st\<lparr>typingUsers := (typingUsers st)(uid := None),
           typingTimeouts := clearTimeout uid (typingTimeouts st)\<rparr>)"

text \<open>
  The callback of the expiry timer set by a typing signal:
  \<^verbatim>\<open>setTypingUsers(p => { const updated = { ...p }; delete updated[user_id]; return updated; })\<close>
\<close>

definition typing_expired :: "int \<Rightarrow> chat_page \<Rightarrow> chat_page" where
  "typing_expired uid st = st\<lparr>typingUsers := (typingUsers st)(uid := None)\<rparr>"

subsection \<open>Read receipts, presence\<close>

definition on_read_receipt :: "chat_env \<Rightarrow> int \<Rightarrow> int \<Rightarrow> chat_page \<Rightarrow> chat_page" where
  "on_read_receipt env channel_id last_read_id st =
     (case channelId env of
        None \<Rightarrow> st
      | Some c \<Rightarrow>
          if c = channel_id then
            st\<lparr>channelCache := setQueryData (channelCache st) c
                 (\<lambda>old. old\<lparr>ch_others_read_id :=
                    Some (max (or_zero (ch_others_read_id old)) last_read_id)\<rparr>)\<rparr>
          else st)"

definition update_member :: "int \<Rightarrow> int \<Rightarrow> presence_status \<Rightarrow> member \<Rightarrow> member" where
  "update_member now uid status m =
     (if member_id m = uid then
        m\<lparr>member_is_online := Some (status = Online),
          member_last_seen := (if status = Offline then Some now else member_last_seen m)\<rparr>
      else m)"

definition on_user_presence :: "int \<Rightarrow> int \<Rightarrow> presence_status \<Rightarrow> chat_page \<Rightarrow> chat_page" where
  "on_user_presence now uid status st =
     st\<lparr>membersCache := (\<lambda>k. map_option (map (update_member now uid status)) (membersCache st k))\<rparr>"

definition on_presence :: "chat_env \<Rightarrow> int \<Rightarrow> chat_page \<Rightarrow> chat_page" where
  "on_presence env online_count st =
     (case channelId env of
        None \<Rightarrow> st
      | Some c \<Rightarrow>
          st\<lparr>channelCache := setQueryData (channelCache st) c
               (\<lambda>old. old\<lparr>ch_online_count := online_count\<rparr>)\<rparr>)"

subsection \<open>Reactions\<close>

definition same_reaction :: "int \<Rightarrow> string \<Rightarrow> reaction \<Rightarrow> bool" where
  "same_reaction uid emoji r = (reaction_user_id r = uid \<and> reaction_emoji r = emoji)"

definition add_reaction :: "int \<Rightarrow> reaction \<Rightarrow> message \<Rightarrow> message" where
  "add_reaction message_id r m =
     (if msg_id m = message_id then
        (let reactions = or_empty (msg_reactions m) in
         if list_ex (same_reaction (reaction_user_id r) (reaction_emoji r)) reactions then m
         else m\<lparr>msg_reactions := Some (reactions @ [r])\<rparr>)
      else m)"

definition on_reaction_added :: "int \<Rightarrow> reaction \<Rightarrow> chat_page \<Rightarrow> chat_page" where
  "on_reaction_added message_id r st = st\<lparr>messages := map (add_reaction message_id r) (messages st)\<rparr>"

definition remove_reaction :: "int \<Rightarrow> int \<Rightarrow> string \<Rightarrow> message \<Rightarrow> message" where
  "remove_reaction message_id uid emoji m =
     (if msg_id m = message_id then
        m\<lparr>msg_reactions :=
            Some (filter (\<lambda>r. \<not> same_reaction uid emoji r) (or_empty (msg_reactions m)))\<rparr>
      else m)"

definition on_reaction_removed :: "int \<Rightarrow> int \<Rightarrow> string \<Rightarrow> chat_page \<Rightarrow> chat_page" where
  "on_reaction_removed message_id uid emoji st =
     st\<lparr>messages := map (remove_reaction message_id uid emoji) (messages st)\<rparr>"

subsection \<open>Messages\<close>

definition on_message_deleted :: "int \<Rightarrow> chat_page \<Rightarrow> chat_page" where
  "on_message_deleted message_id st =
     st\<lparr>messages := filter (\<lambda>m. msg_id m \<noteq> message_id) (messages st)\<rparr>"

text \<open>The first \<^verbatim>\<open>setMessages\<close> of the message branch, run when \<^verbatim>\<open>parent_id\<close> is truthy.\<close>

definition bump_reply_count :: "int \<Rightarrow> message \<Rightarrow> message" where
  "bump_reply_count parent m =
     (if msg_id m = parent then m\<lparr>msg_reply_count := Some (or_zero (msg_reply_count m) + 1)\<rparr>
      else m)"

text \<open>The second \<^verbatim>\<open>setMessages\<close>: append unless a message with the id is stored.\<close>

definition append_message :: "message \<Rightarrow> message list \<Rightarrow> message list" where
  "append_message msg prev =
     (if list_ex (\<lambda>m. msg_id m = msg_id msg) prev then prev else prev @ [msg])"

definition store_message :: "message \<Rightarrow> message list \<Rightarrow> message list" where
  "store_message msg prev =
     append_message msg
       (if truthy_num (msg_parent_id msg)
        then map (bump_reply_count (or_zero (msg_parent_id msg))) prev
        else prev)"

definition on_new_message :: "chat_env \<Rightarrow> message \<Rightarrow> chat_page \<Rightarrow> chat_page \<times> call list" where
  "on_new_message env msg st =
     (st\<lparr>messages := store_message msg (messages st)\<rparr>,
      (if channelId env = Some (msg_channel_id msg) \<and> \<not> is_user (msg_user_id msg) (current_user env)
       then [MarkRead (msg_channel_id msg)] else [])
      @ [ScrollToBottom])"

subsection \<open>Dispatch\<close>

text \<open>
  \<^verbatim>\<open>onMessage\<close>: the chain of \<^verbatim>\<open>if (data.type === ...)\<close> tests, in the order of
  the source. The result is the new state and the calls made. A frame that matches no
  test falls off the end of the function.
\<close>

fun onMessage :: "chat_env \<Rightarrow> int \<Rightarrow> WebSocketMessage \<Rightarrow> chat_page \<Rightarrow> chat_page \<times> call list" where
  "onMessage env now (Typing uid full_name username is_typing) st =
     (on_typing env now uid full_name username is_typing st, [])"
| "onMessage env now (ReadReceipt channel_id uid last_read_id) st =
     (on_read_receipt env channel_id last_read_id st, [])"
| "onMessage env now (UserPresence uid status) st = (on_user_presence now uid status st, [])"
| "onMessage env now (ReactionAdded message_id r) st = (on_reaction_added message_id r st, [])"
| "onMessage env now (ReactionRemoved message_id uid emoji) st =
     (on_reaction_removed message_id uid emoji st, [])"
| "onMessage env now (Presence online_count) st = (on_presence env online_count st, [])"
| "onMessage env now (MessageDeleted message_id) st = (on_message_deleted message_id st, [])"
| "onMessage env now (MessageFrame t msg) st =
     (if t = Some ''new_message'' \<or> falsy_type t then on_new_message env msg st else (st, []))"

subsection \<open>Timers and runs of events\<close>

text \<open>
  The browser's timer queue: when the clock reaches \<open>t\<close>, the callback
  \<open>typing_expired\<close> of every pending timer whose time has come is run, in the order of
  the queue (all timers have the same delay, so that is the order of their times), and
  those timers are pending no longer.
\<close>

definition due :: "int \<Rightarrow> int \<times> int \<Rightarrow> bool" where
  "due t timer = (snd timer \<le> t)"

definition run_timers :: "int \<Rightarrow> chat_page \<Rightarrow> chat_page" where
  "run_timers t st =
     (fold (\<lambda>timer. typing_expired (fst timer)) (filter (due t) (typingTimeouts st)) st)
       \<lparr>typingTimeouts := filter (\<lambda>timer. \<not> due t timer) (typingTimeouts st)\<rparr>"

text \<open>What happens to the page: a frame arrives at some time, or the clock advances.\<close>

datatype step = Receive int WebSocketMessage | Elapse int

fun do_step :: "chat_env \<Rightarrow> step \<Rightarrow> chat_page \<Rightarrow> chat_page" where
  "do_step env (Receive now frame) st = fst (onMessage env now frame st)"
| "do_step env (Elapse t) st = run_timers t st"

definition run :: "chat_env \<Rightarrow> step list \<Rightarrow> chat_page \<Rightarrow> chat_page" where
  "run env steps st = fold (do_step env) steps st"

section \<open>Channel change\<close>

text \<open>
  The layout effect commented \<^verbatim>\<open>Reset state when channelId changes\<close>, run with the
  route's new channel id.
\<close>

definition on_channel_change :: "int option \<Rightarrow> chat_page \<Rightarrow> chat_page" where
  "on_channel_change new_id st =
     (if prevChannelId st \<noteq> new_id then
        st\<lparr>messages := [],
           initialLastReadId := None,
           activeThread := None,
           showParticipants := True,
           isInitialLoad := True,
           prevChannelId := new_id\<rparr>
      else st)"

section \<open>Merging history into the message list\<close>

text \<open>
  \<^verbatim>\<open>new Map(entries)\<close> keeps its keys in the order of their first insertion; setting a
  key that is present replaces its value where it stands. \<^verbatim>\<open>.values()\<close> lists the
  values in that order.
\<close>

fun Map_set :: "'k \<Rightarrow> 'v \<Rightarrow> ('k \<times> 'v) list \<Rightarrow> ('k \<times> 'v) list" where
  "Map_set k v [] = [(k, v)]"
| "Map_set k v ((k', v') # kvs) =
     (if k' = k then (k, v) # kvs else (k', v') # Map_set k v kvs)"

definition new_Map :: "('k \<times> 'v) list \<Rightarrow> ('k \<times> 'v) list" where
  "new_Map entries = foldl (\<lambda>m (k, v). Map_set k v m) [] entries"

definition Map_values :: "('k \<times> 'v) list \<Rightarrow> 'v list" where
  "Map_values m = map snd m"

text \<open>
  The updater passed to \<^verbatim>\<open>setMessages\<close> by the history effect.
  \<^verbatim>\<open>.sort((a, b) => a.id - b.id)\<close> is a stable sort by id, as \<open>sort_key\<close> is.
\<close>

definition merge_history :: "message list list \<Rightarrow> message list \<Rightarrow> message list" where
  "merge_history pages prev =
     (let allHistory = concat pages;
          combined = allHistory @ prev;
          unique = sort_key msg_id (Map_values (new_Map (map (\<lambda>m. (msg_id m, m)) combined)))
      in unique)"

section \<open>Reactions as displayed\<close>

datatype js_error = TypeError

record reaction_group =
  group_emoji :: string
  group_count :: nat
  group_users :: "string list"
  group_avatars :: "string option list"
  group_hasMine :: bool

text \<open>
  \<^verbatim>\<open>groups\<close> is an object literal, so \<^verbatim>\<open>groups[r.emoji]\<close> also finds the members
  it inherits from \<^verbatim>\<open>Object.prototype\<close>. For such a key the test
  \<^verbatim>\<open>!groups[r.emoji]\<close> fails, no group is created, and
  \<^verbatim>\<open>groups[r.emoji].users.push\<close> reads \<^verbatim>\<open>push\<close> of \<^verbatim>\<open>undefined\<close>.
\<close>

definition inherited_keys :: "string list" where
  "inherited_keys =
     [''constructor'', ''__proto__'', ''hasOwnProperty'', ''isPrototypeOf'',
      ''propertyIsEnumerable'', ''toLocaleString'', ''toString'', ''valueOf'',
      ''__defineGetter__'', ''__defineSetter__'', ''__lookupGetter__'', ''__lookupSetter__'']"

text \<open>\<^verbatim>\<open>r.avatar_url || null\<close>.\<close>

fun or_null :: "string option \<Rightarrow> string option" where
  "or_null None = None"
| "or_null (Some s) = (if s = [] then None else Some s)"

text \<open>The group of an emoji, if the object has one of its own.\<close>

definition group_of :: "string \<Rightarrow> reaction_group list \<Rightarrow> reaction_group option" where
  "group_of emoji groups = find (\<lambda>g. group_emoji g = emoji) groups"

definition count_reaction :: "user option \<Rightarrow> reaction \<Rightarrow> reaction_group \<Rightarrow> reaction_group" where
  "count_reaction me r g =
     (if group_emoji g = reaction_emoji r then
        g\<lparr>group_count := group_count g + 1,
          group_users := group_users g @ [reaction_username r],
          group_avatars := group_avatars g @ [or_null (reaction_avatar_url r)],
          group_hasMine := (if is_user (reaction_user_id r) me then True else group_hasMine g)\<rparr>
      else g)"

text \<open>One round of the \<^verbatim>\<open>forEach\<close> for a key that is not inherited.\<close>

definition add_to_groups :: "user option \<Rightarrow> reaction \<Rightarrow> reaction_group list \<Rightarrow> reaction_group list" where
  "add_to_groups me r groups =
     map (count_reaction me r)
       (if group_of (reaction_emoji r) groups = None
        then groups @ [\<lparr>group_emoji = reaction_emoji r, group_count = 0, group_users = [],
                        group_avatars = [], group_hasMine = False\<rparr>]
        else groups)"

fun forEach_reaction ::
  "user option \<Rightarrow> reaction list \<Rightarrow> reaction_group list \<Rightarrow> js_error + reaction_group list" where
  "forEach_reaction me [] groups = Inr groups"
| "forEach_reaction me (r # rs) groups =
     (if reaction_emoji r \<in> set inherited_keys then Inl TypeError
      else forEach_reaction me rs (add_to_groups me r groups))"

text \<open>
  \<^verbatim>\<open>groupReactions\<close>. The groups are listed in the order in which their emoji
  first occurs, which is the order of \<^verbatim>\<open>Object.values\<close> for keys that are not
  array indices.
\<close>

definition groupReactions :: "user option \<Rightarrow> reaction list option \<Rightarrow> js_error + reaction_group list" where
  "groupReactions me reactions =
     (case reactions of None \<Rightarrow> Inr [] | Some rs \<Rightarrow> forEach_reaction me rs [])"

text \<open>
  \<^verbatim>\<open>handleReactionClick\<close>: the calls made, given whether the REST request fails.
\<close>

definition handleReactionClick ::
  "user option \<Rightarrow> message list \<Rightarrow> int \<Rightarrow> string \<Rightarrow> bool \<Rightarrow> call list" where
  "handleReactionClick me msgs messageId emoji request_fails =
     (case find (\<lambda>m. msg_id m = messageId) msgs of
        None \<Rightarrow> []
      | Some m \<Rightarrow>
          (let hasMyReaction =
                 list_ex (\<lambda>r. is_user (reaction_user_id r) me \<and> reaction_emoji r = emoji)
                   (or_empty (msg_reactions m))
           in (if hasMyReaction then [ApiDeleteReaction messageId emoji]
               else [ApiPostReaction messageId emoji])
              @ (if request_fails then [ConsoleError ''Error toggling reaction''] else [])))"

section \<open>The layout's handler for messages received elsewhere\<close>

text \<open>
  The payload as \<^verbatim>\<open>onMessageReceived\<close> casts it. The cast names these fields only;
  whatever else the frame carries stays in the record's extension, which the handler
  has no way to read.
\<close>

record msg_body =
  body_document_id :: "int option"
  body_sender_name :: "string option"
  body_content :: "string option"

record msgData =
  md_channel_id :: int
  md_is_mentioned :: "bool option"
  md_message :: "msg_body option"

text \<open>A frame that also names its author, a field outside the handler's cast.\<close>

record authored_msgData = msgData +
  md_sender_id :: int

text \<open>
  What the handler closes over. \<open>path_channel\<close> is the group \<^verbatim>\<open>(\d+)\<close> of
  \<^verbatim>\<open>location.pathname.match(/\/chat\/(\d+)/)\<close> read as a number, \<open>None\<close> when the
  path does not match. \<open>channels\<close> is the cached channel list, \<open>None\<close> while it is
  not loaded. \<open>clock\<close> is \<^verbatim>\<open>new Date()\<close>.
\<close>

record layout_env =
  path_channel :: "int option"
  layout_user :: "user option"
  channels :: "channel list option"
  clock :: int

datatype toast_title = MentionedBy string | Plain string

record toast =
  toast_title :: toast_title
  toast_message :: string
  toast_duration :: int
  toast_opens_channel :: int

datatype layout_call =
    AddUnread int
  | InvalidateChannels
  | PlayNotificationSound
  | AddDocUnread int int
  | AddToast toast
  | SendSystemNotification toast_title string int

text \<open>\<^verbatim>\<open>s || fallback\<close> on an optional string.\<close>

fun or_string :: "string option \<Rightarrow> string \<Rightarrow> string" where
  "or_string None d = d"
| "or_string (Some s) d = (if s = [] then d else s)"

text \<open>\<^verbatim>\<open>channel?.mute_until ? new Date(channel.mute_until) > new Date() : false\<close>\<close>

definition isMuted :: "layout_env \<Rightarrow> int \<Rightarrow> bool" where
  "isMuted env cid =
     (case channels env of
        None \<Rightarrow> False
      | Some cs \<Rightarrow>
          (case find (\<lambda>c. ch_id c = cid) cs of
             None \<Rightarrow> False
           | Some ch \<Rightarrow> (case ch_mute_until ch of None \<Rightarrow> False | Some t \<Rightarrow> clock env < t)))"

text \<open>\<^verbatim>\<open>user?.notify_sound\<close> as a condition.\<close>

definition notify_sound :: "user option \<Rightarrow> bool" where
  "notify_sound u = (case u of None \<Rightarrow> False | Some v \<Rightarrow> u_notify_sound v = Some True)"

text \<open>\<^verbatim>\<open>user?.notify_browser !== false\<close>\<close>

definition shouldNotify :: "user option \<Rightarrow> bool" where
  "shouldNotify u = (case u of None \<Rightarrow> True | Some v \<Rightarrow> u_notify_browser v \<noteq> Some False)"

text \<open>\<^verbatim>\<open>msgData.message?.document_id\<close>\<close>

definition document_id :: "'a msgData_scheme \<Rightarrow> int option" where
  "document_id d = (case md_message d of None \<Rightarrow> None | Some b \<Rightarrow> body_document_id b)"

text \<open>
  The test \<^verbatim>\<open>!currentChannelIdNum || currentChannelIdNum !== channelId\<close>.
\<close>

definition elsewhere :: "layout_env \<Rightarrow> int \<Rightarrow> bool" where
  "elsewhere env cid = (\<not> truthy_num (path_channel env) \<or> path_channel env \<noteq> Some cid)"

definition onMessageReceived :: "layout_env \<Rightarrow> 'a msgData_scheme \<Rightarrow> layout_call list" where
  "onMessageReceived env d =
     (let channelId = md_channel_id d in
      if elsewhere env channelId then
        (let muted = isMuted env channelId;
             isDocumentShare = truthy_num (document_id d);
             senderName = or_string (case md_message d of None \<Rightarrow> None | Some b \<Rightarrow> body_sender_name b) ''Someone'';
             content = or_string (case md_message d of None \<Rightarrow> None | Some b \<Rightarrow> body_content b) ''New message'';
             isMentioned = (md_is_mentioned d = Some True);
             title = (if isMentioned then MentionedBy senderName else Plain senderName)
         in [AddUnread channelId, InvalidateChannels]
            @ (if notify_sound (layout_user env) \<and> \<not> muted then [PlayNotificationSound] else [])
            @ (if isDocumentShare then [AddDocUnread (or_zero (document_id d)) channelId] else [])
            @ (if shouldNotify (layout_user env) \<and> \<not> isDocumentShare \<and> \<not> muted then
                 (if isMentioned
                  then [AddToast \<lparr>toast_title = title, toast_message = content,
                                  toast_duration = 5000, toast_opens_channel = channelId\<rparr>]
                  else [])
                 @ [SendSystemNotification title content channelId]
               else []))
      else [])"

text \<open>Which of the three notifications a list of calls contains.\<close>

fun is_toast :: "layout_call \<Rightarrow> bool" where
  "is_toast (AddToast _) = True"
| "is_toast _ = False"

fun is_sound :: "layout_call \<Rightarrow> bool" where
  "is_sound PlayNotificationSound = True"
| "is_sound _ = False"

fun is_system_notification :: "layout_call \<Rightarrow> bool" where
  "is_system_notification (SendSystemNotification _ _ _) = True"
| "is_system_notification _ = False"

subsection \<open>The unread store\<close>

text \<open>
  The store (\<^verbatim>\<open>store/useUnreadStore\<close>) is not among the sources, so its
  \<^verbatim>\<open>addUnread\<close> is a parameter: \<open>unread_after add calls store\<close> is the store after
  the calls of a handler have run, \<open>add\<close> being what \<^verbatim>\<open>addUnread\<close> does to it.
\<close>

fun unread_after :: "(int \<Rightarrow> 's \<Rightarrow> 's) \<Rightarrow> layout_call list \<Rightarrow> 's \<Rightarrow> 's" where
  "unread_after add [] store = store"
| "unread_after add (AddUnread cid # cs) store = unread_after add cs (add cid store)"
| "unread_after add (_ # cs) store = unread_after add cs store"

text \<open>
  Modelled from the spec: \<^verbatim>\<open>addUnread\<close> of \<^verbatim>\<open>store/useUnreadStore\<close>, which is not
  among the sources. The spec calls it \<^verbatim>\<open>increment(channelId)\<close> on a per-channel
  count; the sidebar reads a channel without an entry as \<open>0\<close>
  (\<^verbatim>\<open>unreadCounts[channel.id] || 0\<close>).
\<close>

definition addUnread :: "int \<Rightarrow> (int \<rightharpoonup> int) \<Rightarrow> (int \<rightharpoonup> int)" where
  "addUnread cid counts = counts(cid \<mapsto> or_zero (counts cid) + 1)"

text \<open>The count the sidebar shows for a channel.\<close>

definition unread_count :: "(int \<rightharpoonup> int) \<Rightarrow> int \<Rightarrow> int" where
  "unread_count counts cid = or_zero (counts cid)"

section \<open>Readings of the state\<close>

text \<open>
  The counterpart's last read id as the page reads it:
  \<^verbatim>\<open>channel?.others_read_id || 0\<close>.
\<close>

definition others_read :: "chat_page \<Rightarrow> int \<Rightarrow> int" where
  "others_read st c =
     (case channelCache st c of None \<Rightarrow> 0 | Some ch \<Rightarrow> or_zero (ch_others_read_id ch))"

text \<open>The component as it mounts on a route, and sample data for concrete runs.\<close>

definition initial_page :: "int option \<Rightarrow> chat_page" where
  "initial_page cid =
     \<lparr>messages = [], typingUsers = Map.empty, typingTimeouts = [],
      initialLastReadId = None, activeThread = None, showParticipants = True,
      isInitialLoad = True, prevChannelId = cid,
      channelCache = Map.empty, membersCache = Map.empty\<rparr>"

definition sample_user :: "int \<Rightarrow> user" where
  "sample_user i = \<lparr>u_id = i, u_notify_sound = Some True, u_notify_browser = Some True\<rparr>"

definition sample_env :: chat_env where
  "sample_env = \<lparr>channelId = Some 1, current_user = Some (sample_user 1)\<rparr>"

definition sample_message :: "int \<Rightarrow> int option \<Rightarrow> message" where
  "sample_message i parent =
     \<lparr>msg_id = i, msg_channel_id = 1, msg_user_id = 2, msg_username = ''bob'',
      msg_content = ''hello'', msg_parent_id = parent, msg_reply_count = None,
      msg_reactions = None\<rparr>"

definition sample_channel :: "int \<Rightarrow> channel" where
  "sample_channel i =
     \<lparr>ch_id = i, ch_mute_until = None, ch_others_read_id = Some 10, ch_online_count = 2\<rparr>"

text \<open>A step that renews the typing entry of user \<open>u\<close>.\<close>

fun refreshes :: "int \<Rightarrow> step \<Rightarrow> bool" where
  "refreshes u (Receive now (Typing v full_name username is_typing)) = (v = u \<and> is_typing)"
| "refreshes u _ = False"

text \<open>
  User \<open>u\<close> is not shown as typing, or a timer for \<open>u\<close> that fires at \<open>deadline\<close>
  is pending.
\<close>

definition expiring :: "int \<Rightarrow> int \<Rightarrow> chat_page \<Rightarrow> bool" where
  "expiring u deadline st =
     (typingUsers st u = None \<or> list_ex (\<lambda>timer. timer = (u, deadline)) (typingTimeouts st))"

text \<open>Whether a timer for user \<open>u\<close> is pending.\<close>

definition timer_pending :: "int \<Rightarrow> chat_page \<Rightarrow> bool" where
  "timer_pending u st = list_ex (\<lambda>timer. fst timer = u) (typingTimeouts st)"

text \<open>The tags \<^verbatim>\<open>onMessage\<close> compares \<^verbatim>\<open>data.type\<close> with.\<close>

definition known_types :: "string list" where
  "known_types =
     [''typing'', ''read_receipt'', ''user_presence'', ''reaction_added'',
      ''reaction_removed'', ''presence'', ''message_deleted'', ''new_message'']"

text \<open>The one call by which the page reports an error.\<close>

fun is_error_report :: "call \<Rightarrow> bool" where
  "is_error_report (ConsoleError _) = True"
| "is_error_report _ = False"

text \<open>A reply to message 1, and a page that holds message 1.\<close>

definition reply_frame :: WebSocketMessage where
  "reply_frame = MessageFrame (Some ''new_message'') (sample_message 2 (Some 1))"

definition page_with_parent :: chat_page where
  "page_with_parent = (initial_page (Some 1))\<lparr>messages := [sample_message 1 None]\<rparr>"

text \<open>
  The copy of the message with id \<open>i\<close> that stands last in a list of messages.
\<close>

definition latest_copy :: "message list \<Rightarrow> int \<Rightarrow> message option" where
  "latest_copy combined i = map_of (rev (map (\<lambda>m. (msg_id m, m)) combined)) i"

text \<open>
  The group that the reactions \<open>rs\<close> give an emoji: how many carry it, whose they
  are, and whether one is the signed-in user's.
\<close>

definition tally :: "user option \<Rightarrow> reaction list \<Rightarrow> string \<Rightarrow> reaction_group" where
  "tally me rs emoji =
     (let same = filter (\<lambda>r. reaction_emoji r = emoji) rs in
      \<lparr>group_emoji = emoji,
       group_count = length same,
       group_users = map reaction_username same,
       group_avatars = map (\<lambda>r. or_null (reaction_avatar_url r)) same,
       group_hasMine = list_ex (\<lambda>r. is_user (reaction_user_id r) me) same\<rparr>)"

text \<open>The emoji of a list of reactions, each once, in the order of first occurrence.\<close>

definition first_seen :: "reaction list \<Rightarrow> string list" where
  "first_seen rs = rev (remdups (rev (map reaction_emoji rs)))"

text \<open>How many reactions with the emoji come from users other than \<open>uid\<close>.\<close>

definition others_with :: "string \<Rightarrow> int \<Rightarrow> reaction list \<Rightarrow> nat" where
  "others_with emoji uid rs =
     length (filter (\<lambda>r. reaction_emoji r = emoji \<and> reaction_user_id r \<noteq> uid) rs)"

text \<open>
  What the page shows for an emoji on a message: the count and \<^verbatim>\<open>hasMine\<close> of its
  group, if \<^verbatim>\<open>groupReactions\<close> returns and has a group for it.
\<close>

definition shown_for :: "user option \<Rightarrow> string \<Rightarrow> message \<Rightarrow> (nat \<times> bool) option" where
  "shown_for me emoji m =
     (case groupReactions me (msg_reactions m) of
        Inl _ \<Rightarrow> None
      | Inr groups \<Rightarrow> map_option (\<lambda>g. (group_count g, group_hasMine g)) (group_of emoji groups))"

definition sample_reaction :: "int \<Rightarrow> reaction" where
  "sample_reaction uid =
     \<lparr>reaction_user_id = uid, reaction_emoji = ''thumbs_up'', reaction_username = ''someone'',
      reaction_avatar_url = None\<rparr>"

text \<open>The channels for which a list of calls increments the unread count.\<close>

fun unread_calls :: "layout_call list \<Rightarrow> int list" where
  "unread_calls [] = []"
| "unread_calls (AddUnread cid # cs) = cid # unread_calls cs"
| "unread_calls (_ # cs) = unread_calls cs"

text \<open>
  A layout on the route of channel 5, a payload from another user, a payload that
  shares a document, and a payload that names the signed-in user (id 1) as its author.
\<close>

definition sample_layout :: layout_env where
  "sample_layout =
     \<lparr>path_channel = Some 5, layout_user = Some (sample_user 1),
      channels = Some [sample_channel 2, sample_channel 5], clock = 0\<rparr>"

definition sample_payload :: "int \<Rightarrow> msgData" where
  "sample_payload cid =
     \<lparr>md_channel_id = cid, md_is_mentioned = None,
      md_message = Some \<lparr>body_document_id = None, body_sender_name = Some ''bob'',
                         body_content = Some ''hello''\<rparr>\<rparr>"

definition document_payload :: "int \<Rightarrow> msgData" where
  "document_payload cid =
     \<lparr>md_channel_id = cid, md_is_mentioned = None,
      md_message = Some \<lparr>body_document_id = Some 9, body_sender_name = Some ''bob'',
                         body_content = Some ''report''\<rparr>\<rparr>"

definition own_payload :: "int \<Rightarrow> authored_msgData" where
  "own_payload cid =
     \<lparr>md_channel_id = cid, md_is_mentioned = None,
      md_message = Some \<lparr>body_document_id = None, body_sender_name = Some ''alice'',
                         body_content = Some ''hello''\<rparr>,
      md_sender_id = 1\<rparr>"

section \<open>Properties\<close>

subsection \<open>Backfill\<close>

text \<open>
  C9. A fetched page with fewer messages than the page size (50) ends the backfill:
  \<^verbatim>\<open>getNextPageParam\<close> returns nothing, \<^verbatim>\<open>hasNextPage\<close> is false and no scroll
  event requests a further page. A page of exactly 50 messages leaves a next page
  available, whose parameter is the number of pages fetched so far.
\<close>

lemma hasNextPage_snoc: "hasNextPage (pages @ [p]) = (length p = 50)"
  by (simp add: hasNextPage_def getNextPageParam_def list.case_eq_if)

theorem backfill_exhausted_on_short_page:
  "(length lastPage < 50 \<longrightarrow>
      getNextPageParam lastPage (pages @ [lastPage]) = None
      \<and> \<not> hasNextPage (pages @ [lastPage])
      \<and> \<not> handleScroll scrollTop fetching (pages @ [lastPage]))
   \<and> (length lastPage = 50 \<longrightarrow>
      getNextPageParam lastPage (pages @ [lastPage]) = Some (Suc (length pages))
      \<and> hasNextPage (pages @ [lastPage])
      \<and> handleScroll 0 False (pages @ [lastPage]))"
  by (simp add: hasNextPage_snoc handleScroll_def getNextPageParam_def)

theorem backfill_exhausted_on_short_page_witness:
  "length ([] :: message list) < 50
   \<and> getNextPageParam [] [[]] = None
   \<and> \<not> hasNextPage [[]]
   \<and> \<not> handleScroll 0 False [[]]
   \<and> length (replicate 50 (sample_message 1 None)) = 50
   \<and> getNextPageParam (replicate 50 (sample_message 1 None)) [replicate 50 (sample_message 1 None)]
       = Some (Suc 0)
   \<and> hasNextPage [replicate 50 (sample_message 1 None)]
   \<and> handleScroll 0 False [replicate 50 (sample_message 1 None)]"
  using backfill_exhausted_on_short_page [of "[]" "[]" 0 False]
        backfill_exhausted_on_short_page [of "replicate 50 (sample_message 1 None)" "[]" 0 False]
  by simp

subsection \<open>Read receipts\<close>

lemma channelCache_onMessage_cases:
  "channelCache (fst (onMessage env now frame st)) =
     (case frame of
        ReadReceipt cid uid l \<Rightarrow> channelCache (on_read_receipt env cid l st)
      | Presence n \<Rightarrow> channelCache (on_presence env n st)
      | _ \<Rightarrow> channelCache st)"
  by (cases frame)
     (simp_all add: on_typing_def on_user_presence_def on_reaction_added_def
        on_reaction_removed_def on_message_deleted_def on_new_message_def)

lemma others_read_on_read_receipt:
  "others_read (on_read_receipt env cid l st) c =
     (if channelId env = Some cid \<and> cid = c \<and> channelCache st c \<noteq> None
      then max (others_read st c) l else others_read st c)"
  by (auto simp: on_read_receipt_def others_read_def setQueryData_def split: option.splits)

lemma others_read_on_presence: "others_read (on_presence env n st) c = others_read st c"
  by (auto simp: on_presence_def others_read_def setQueryData_def split: option.splits)

lemma channelCache_expired:
  "channelCache (fold (\<lambda>timer. typing_expired (fst timer)) timers st) = channelCache st"
  by (induction timers arbitrary: st) (simp_all add: typing_expired_def)

lemma others_read_run_timers: "others_read (run_timers t st) c = others_read st c"
  by (simp add: run_timers_def others_read_def channelCache_expired)

lemma others_read_step_mono: "others_read st c \<le> others_read (do_step env s st) c"
proof (cases s)
  case (Receive now frame)
  have "others_read (fst (onMessage env now frame st)) c =
        (case frame of
           ReadReceipt cid uid l \<Rightarrow> others_read (on_read_receipt env cid l st) c
         | Presence n \<Rightarrow> others_read (on_presence env n st) c
         | _ \<Rightarrow> others_read st c)"
    unfolding others_read_def channelCache_onMessage_cases
    by (cases frame) simp_all
  then show ?thesis
    using Receive
    by (cases frame) (simp_all add: others_read_on_read_receipt others_read_on_presence)
next
  case (Elapse t)
  then show ?thesis by (simp add: others_read_run_timers)
qed

lemma others_read_run_mono: "others_read st c \<le> others_read (run env steps st) c"
  unfolding run_def
proof (induction steps arbitrary: st)
  case Nil
  show ?case by simp
next
  case (Cons s steps)
  have "others_read st c \<le> others_read (do_step env s st) c"
    by (rule others_read_step_mono)
  also have "\<dots> \<le> others_read (fold (do_step env) steps (do_step env s st)) c"
    by (rule Cons.IH)
  finally show ?case by simp
qed

text \<open>
  C10. A read receipt for the channel that is open and loaded sets the channel's
  \<^verbatim>\<open>others_read_id\<close> to the larger of its current value (read as \<open>0\<close> when it has
  none) and the receipt's \<^verbatim>\<open>last_read_id\<close>; and over any run of frames and timer
  expiries the value never decreases, so a late receipt with a smaller id cannot lower
  it.
\<close>

theorem read_receipt_never_lowers:
  assumes "channelId env = Some c" and "channelCache st c \<noteq> None"
  shows "others_read (do_step env (Receive now (ReadReceipt c u l)) st) c
           = max (others_read st c) l
         \<and> others_read st c \<le> others_read (run env steps st) c"
  using assms by (simp add: others_read_on_read_receipt others_read_run_mono)

theorem read_receipt_never_lowers_witness:
  "others_read (do_step sample_env (Receive 0 (ReadReceipt 1 2 7))
      ((initial_page (Some 1))\<lparr>channelCache := [1 \<mapsto> sample_channel 1]\<rparr>)) 1 = 10
   \<and> others_read (run sample_env
        [Receive 0 (ReadReceipt 1 2 12), Receive 1 (ReadReceipt 1 2 7)]
        ((initial_page (Some 1))\<lparr>channelCache := [1 \<mapsto> sample_channel 1]\<rparr>)) 1 = 12"
proof -
  let ?st = "(initial_page (Some 1))\<lparr>channelCache := [1 \<mapsto> sample_channel 1]\<rparr>"
  have env: "channelId sample_env = Some 1" by (simp add: sample_env_def)
  have loaded: "channelCache ?st 1 \<noteq> None" by simp
  have start: "others_read ?st 1 = 10" by (simp add: others_read_def sample_channel_def)
  have last: "others_read (run sample_env
        [Receive 0 (ReadReceipt 1 2 12), Receive 1 (ReadReceipt 1 2 7)] ?st) 1 = 12"
    by (simp add: run_def others_read_def on_read_receipt_def setQueryData_def
          sample_env_def sample_channel_def)
  from read_receipt_never_lowers [OF env loaded, of 0 2 7 "[]"] start last
  show ?thesis by simp
qed

subsection \<open>Typing entries\<close>

lemma typing_onMessage_cases:
  "typingUsers (fst (onMessage env now frame st)) =
     (case frame of
        Typing v fn un b \<Rightarrow> typingUsers (on_typing env now v fn un b st)
      | _ \<Rightarrow> typingUsers st)"
  "typingTimeouts (fst (onMessage env now frame st)) =
     (case frame of
        Typing v fn un b \<Rightarrow> typingTimeouts (on_typing env now v fn un b st)
      | _ \<Rightarrow> typingTimeouts st)"
  by (cases frame;
      simp add: on_read_receipt_def on_presence_def on_user_presence_def on_reaction_added_def
        on_reaction_removed_def on_message_deleted_def on_new_message_def split: option.splits)+

lemma typingUsers_expired:
  "typingUsers (fold (\<lambda>timer. typing_expired (fst timer)) timers st) u
     = (if list_ex (\<lambda>timer. fst timer = u) timers then None else typingUsers st u)"
  by (induction timers arbitrary: st) (auto simp: typing_expired_def)

lemma run_timers_expires:
  "typingUsers (run_timers t st) u
     = (if list_ex (\<lambda>timer. fst timer = u \<and> due t timer) (typingTimeouts st) then None
        else typingUsers st u)"
  "typingTimeouts (run_timers t st) = filter (\<lambda>timer. \<not> due t timer) (typingTimeouts st)"
  by (auto simp: run_timers_def typingUsers_expired list_ex_iff)

lemma expiring_step:
  assumes "expiring u d st" and "\<not> refreshes u s"
  shows "expiring u d (do_step env s st)"
proof (cases s)
  case (Receive now frame)
  show ?thesis
  proof (cases frame)
    case (Typing v fn un b)
    with assms Receive show ?thesis
      by (auto simp: expiring_def on_typing_def clearTimeout_def setTimeout_def list_ex_iff)
  qed (use assms Receive in
        \<open>simp_all add: expiring_def typing_onMessage_cases del: onMessage.simps\<close>)
next
  case (Elapse t)
  with assms show ?thesis
    by (auto simp: expiring_def run_timers_expires list_ex_iff due_def)
qed

lemma expiring_run:
  assumes "expiring u d st" and "\<not> list_ex (refreshes u) steps"
  shows "expiring u d (run env steps st)"
  using assms unfolding run_def
proof (induction steps arbitrary: st)
  case Nil
  then show ?case by simp
next
  case (Cons s steps)
  then show ?case by (simp add: expiring_step)
qed

lemma run_append: "run env (xs @ ys) st = run env ys (run env xs st)"
  by (simp add: run_def)

lemma run_Cons: "run env (x # xs) st = run env xs (do_step env x st)"
  by (simp add: run_def)

lemma expiring_elapsed:
  assumes "expiring u d st" and "d \<le> t"
  shows "typingUsers (run_timers t st) u = None"
  using assms by (auto simp: expiring_def run_timers_expires list_ex_iff due_def)

text \<open>
  C7. For a user \<open>u\<close> other than the signed-in one: a typing frame with
  \<^verbatim>\<open>is_typing: false\<close> removes \<open>u\<close>'s entry at once and leaves no timer pending for
  it; a frame with \<^verbatim>\<open>is_typing: true\<close> at time \<open>now\<close> shows the entry, and if no
  later step renews it, then once the clock has reached \<open>now + 5000\<close> and the due
  timers have run their callback the entry is gone, whatever other frames and timer
  expiries came in between. A typing frame whose \<^verbatim>\<open>user_id\<close> is the signed-in user's
  own changes nothing.
\<close>

theorem typing_entries_expire:
  assumes other: "\<not> is_user u (current_user env)"
  shows "typingUsers (do_step env (Receive now (Typing u full_name username False)) st) u = None
         \<and> \<not> timer_pending u (do_step env (Receive now (Typing u full_name username False)) st)
         \<and> typingUsers (do_step env (Receive now (Typing u full_name username True)) st) u
             = Some \<lparr>typing_name = display_name full_name username, typing_timestamp = now\<rparr>
         \<and> (\<not> list_ex (refreshes u) steps \<and> now + 5000 \<le> t \<longrightarrow>
              typingUsers (run env (Receive now (Typing u full_name username True) # steps @ [Elapse t]) st) u
                = None)
         \<and> (is_user v (current_user env) \<longrightarrow>
              do_step env (Receive now (Typing v full_name username is_typing)) st = st)"
proof -
  let ?sig = "do_step env (Receive now (Typing u full_name username True)) st"
  have start: "expiring u (now + 5000) ?sig"
    using other by (simp add: expiring_def on_typing_def setTimeout_def)
  have "typingUsers (run env (Receive now (Typing u full_name username True) # steps @ [Elapse t]) st) u = None"
    if "\<not> list_ex (refreshes u) steps" and "now + 5000 \<le> t"
  proof -
    have "expiring u (now + 5000) (run env steps ?sig)"
      using start that(1) by (rule expiring_run)
    then have "typingUsers (run_timers t (run env steps ?sig)) u = None"
      using that(2) by (rule expiring_elapsed)
    then show ?thesis by (simp add: run_Cons run_append run_def)
  qed
  moreover have "typingUsers (do_step env (Receive now (Typing u full_name username False)) st) u = None"
    "\<not> timer_pending u (do_step env (Receive now (Typing u full_name username False)) st)"
    "typingUsers ?sig u = Some \<lparr>typing_name = display_name full_name username, typing_timestamp = now\<rparr>"
    using other by (simp_all add: on_typing_def timer_pending_def clearTimeout_def list_ex_iff)
  moreover have "do_step env (Receive now (Typing v full_name username is_typing)) st = st"
    if "is_user v (current_user env)"
    using that by (simp add: on_typing_def)
  ultimately show ?thesis by blast
qed

theorem typing_entries_expire_witness:
  "\<not> is_user 7 (current_user sample_env)
   \<and> \<not> list_ex (refreshes 7) [Elapse 3000, Receive 3500 (Presence 3)]
   \<and> (1000 :: int) + 5000 \<le> 6000
   \<and> typingUsers (do_step sample_env (Receive 1000 (Typing 7 ''Bob'' ''bob'' False))
        (initial_page (Some 1))) 7 = None
   \<and> \<not> timer_pending 7 (do_step sample_env (Receive 1000 (Typing 7 ''Bob'' ''bob'' False))
        (initial_page (Some 1)))
   \<and> typingUsers (do_step sample_env (Receive 1000 (Typing 7 ''Bob'' ''bob'' True))
        (initial_page (Some 1))) 7 = Some \<lparr>typing_name = ''Bob'', typing_timestamp = 1000\<rparr>
   \<and> typingUsers (run sample_env
        (Receive 1000 (Typing 7 ''Bob'' ''bob'' True)
          # [Elapse 3000, Receive 3500 (Presence 3)] @ [Elapse 6000])
        (initial_page (Some 1))) 7 = None
   \<and> is_user 1 (current_user sample_env)
   \<and> do_step sample_env (Receive 1000 (Typing 1 ''Bob'' ''bob'' True)) (initial_page (Some 1))
       = initial_page (Some 1)"
proof -
  have other: "\<not> is_user 7 (current_user sample_env)"
    by (simp add: sample_env_def sample_user_def)
  have self: "is_user 1 (current_user sample_env)"
    by (simp add: sample_env_def sample_user_def)
  have quiet: "\<not> list_ex (refreshes 7) [Elapse 3000, Receive 3500 (Presence 3)]"
    by simp
  from typing_entries_expire [OF other, where now = 1000 and full_name = "''Bob''"
      and username = "''bob''" and st = "initial_page (Some 1)"
      and steps = "[Elapse 3000, Receive 3500 (Presence 3)]" and t = 6000 and v = 1
      and is_typing = True]
    other self quiet
  show ?thesis by (simp add: display_name_def)
qed

text \<open>
  Before its time the timer does not run: the entry made at time 1000 is still shown
  when the clock reaches 3000, with its timer pending, and is removed by the callback
  at 6000.
\<close>

lemma typing_entry_shown_until_timer_fires:
  "typingUsers (run sample_env [Receive 1000 (Typing 7 ''Bob'' ''bob'' True), Elapse 3000]
      (initial_page (Some 1))) 7 = Some \<lparr>typing_name = ''Bob'', typing_timestamp = 1000\<rparr>
   \<and> typingTimeouts (run sample_env [Receive 1000 (Typing 7 ''Bob'' ''bob'' True), Elapse 3000]
      (initial_page (Some 1))) = [(7, 6000)]
   \<and> typingUsers (run sample_env [Receive 1000 (Typing 7 ''Bob'' ''bob'' True), Elapse 6000]
      (initial_page (Some 1))) 7 = None
   \<and> typingTimeouts (run sample_env [Receive 1000 (Typing 7 ''Bob'' ''bob'' True), Elapse 6000]
      (initial_page (Some 1))) = []"
  by (simp add: run_def on_typing_def run_timers_def typing_expired_def due_def clearTimeout_def
        setTimeout_def initial_page_def sample_env_def sample_user_def display_name_def)

subsection \<open>Frames with an unknown tag\<close>

lemma error_reported_on_failed_request_only:
  "list_ex is_error_report (handleReactionClick me msgs messageId emoji request_fails)
     = (request_fails \<and> find (\<lambda>m. msg_id m = messageId) msgs \<noteq> None)"
  by (simp add: handleReactionClick_def Let_def split: option.split)

text \<open>
  C8, as the code has it. A frame whose \<^verbatim>\<open>type\<close> is a non-empty string other than the
  tags the handler knows matches no branch of \<^verbatim>\<open>onMessage\<close>: the handler returns
  without a call of any kind (no error is raised or logged, nothing touches the
  connection) and the page's state (messages, typing entries and timers, cached channel
  and member data) is what it was.
\<close>

theorem unknown_type_ignored:
  assumes "t \<notin> set known_types" and "t \<noteq> []"
  shows "onMessage env now (MessageFrame (Some t) m) st = (st, [])"
  using assms by (auto simp: known_types_def)

theorem unknown_type_ignored_witness:
  "''unknown_kind'' \<notin> set known_types
   \<and> ''unknown_kind'' \<noteq> []
   \<and> onMessage sample_env 0 (MessageFrame (Some ''unknown_kind'') (sample_message 5 None))
        (initial_page (Some 1)) = (initial_page (Some 1), [])"
proof -
  have unknown: "''unknown_kind'' \<notin> set known_types" by (simp add: known_types_def)
  have nonempty: "''unknown_kind'' \<noteq> []" by simp
  from unknown_type_ignored [OF unknown nonempty] unknown nonempty
  show ?thesis by blast
qed

text \<open>An empty tag is falsy, so such a frame is handled as a new message.\<close>

lemma empty_type_taken_as_message:
  "onMessage env now (MessageFrame (Some []) m) st = on_new_message env m st"
  by simp

text \<open>
  The specification's wording asks for an error at the decode boundary. For the tag
  \<^verbatim>\<open>unknown_kind\<close> the handler makes no call at all, so none that reports an error.
\<close>

theorem unknown_type_reports_no_error:
  "snd (onMessage sample_env 0 (MessageFrame (Some ''unknown_kind'') (sample_message 5 None))
          (initial_page (Some 1))) = []
   \<and> \<not> list_ex is_error_report
        (snd (onMessage sample_env 0 (MessageFrame (Some ''unknown_kind'') (sample_message 5 None))
          (initial_page (Some 1))))"
  by simp

subsection \<open>New messages\<close>

lemma append_message_idem: "append_message msg (append_message msg prev) = append_message msg prev"
  by (simp add: append_message_def list_ex_iff)

lemma msg_id_bump_reply_count [simp]: "msg_id (bump_reply_count p m) = msg_id m"
  by (simp add: bump_reply_count_def)

lemma store_message_idem_without_parent:
  assumes "\<not> truthy_num (msg_parent_id msg)"
  shows "store_message msg (store_message msg prev) = store_message msg prev"
  using assms by (simp add: store_message_def append_message_idem)

lemma ids_store_message:
  "map msg_id (store_message msg prev) =
     (if msg_id msg \<in> set (map msg_id prev) then map msg_id prev else map msg_id prev @ [msg_id msg])"
  by (auto simp: store_message_def append_message_def list_ex_iff comp_def image_iff)
     (metis image_eqI)+

lemma ids_store_message_twice:
  "map msg_id (store_message msg (store_message msg prev)) = map msg_id (store_message msg prev)"
  by (simp add: ids_store_message)

text \<open>
  C1. Applying the same \<^verbatim>\<open>new_message\<close> frame twice should leave the state that
  applying it once leaves. The message list does gain one entry only, but for a reply
  whose parent is stored the parent's \<^verbatim>\<open>reply_count\<close> is incremented on each
  application: with message 1 stored and a reply 2 to it arriving twice, the count is
  \<open>1\<close> after the first frame and \<open>2\<close> after the second, so the two states differ.
\<close>

theorem duplicate_reply_counted_twice:
  "map msg_reply_count (messages (run sample_env [Receive 0 reply_frame] page_with_parent))
     = [Some 1, None]
   \<and> map msg_reply_count
       (messages (run sample_env [Receive 0 reply_frame, Receive 1 reply_frame] page_with_parent))
     = [Some 2, None]
   \<and> map msg_id
       (messages (run sample_env [Receive 0 reply_frame, Receive 1 reply_frame] page_with_parent))
     = [1, 2]
   \<and> run sample_env [Receive 0 reply_frame, Receive 1 reply_frame] page_with_parent
     \<noteq> run sample_env [Receive 0 reply_frame] page_with_parent"
proof -
  have once: "messages (run sample_env [Receive 0 reply_frame] page_with_parent)
      = [(sample_message 1 None)\<lparr>msg_reply_count := Some 1\<rparr>, sample_message 2 (Some 1)]"
    by (simp add: run_def reply_frame_def page_with_parent_def on_new_message_def
          store_message_def append_message_def bump_reply_count_def sample_message_def)
  have twice: "messages (run sample_env [Receive 0 reply_frame, Receive 1 reply_frame] page_with_parent)
      = [(sample_message 1 None)\<lparr>msg_reply_count := Some 2\<rparr>, sample_message 2 (Some 1)]"
    by (simp add: run_def reply_frame_def page_with_parent_def on_new_message_def
          store_message_def append_message_def bump_reply_count_def sample_message_def)
  have "messages (run sample_env [Receive 0 reply_frame, Receive 1 reply_frame] page_with_parent)
      \<noteq> messages (run sample_env [Receive 0 reply_frame] page_with_parent)"
    unfolding once twice by (simp add: sample_message_def)
  then have "run sample_env [Receive 0 reply_frame, Receive 1 reply_frame] page_with_parent
     \<noteq> run sample_env [Receive 0 reply_frame] page_with_parent"
    by metis
  then show ?thesis
    unfolding once twice by (simp add: sample_message_def)
qed

subsection \<open>Channel change\<close>

lemma on_channel_change_keeps_typing:
  "typingUsers (on_channel_change c st) = typingUsers st
   \<and> typingTimeouts (on_channel_change c st) = typingTimeouts st"
  by (simp add: on_channel_change_def)

text \<open>
  C2. A change of channel should clear the users shown as typing. The reset on channel
  change empties the message list and records the new channel, but leaves
  \<^verbatim>\<open>typingUsers\<close> as it was: an entry made in channel 1 is still shown after the
  change to channel 2.
\<close>

theorem typing_entry_survives_channel_change:
  "typingUsers
     (on_channel_change (Some 2)
        (do_step sample_env (Receive 1000 (Typing 7 ''Bob'' ''bob'' True)) (initial_page (Some 1)))) 7
     = Some \<lparr>typing_name = ''Bob'', typing_timestamp = 1000\<rparr>
   \<and> prevChannelId
       (on_channel_change (Some 2)
          (do_step sample_env (Receive 1000 (Typing 7 ''Bob'' ''bob'' True)) (initial_page (Some 1))))
     = Some 2
   \<and> messages
       (on_channel_change (Some 2)
          (do_step sample_env (Receive 1000 (Typing 7 ''Bob'' ''bob'' True)) (initial_page (Some 1))))
     = []"
  by (simp add: on_channel_change_def on_typing_def initial_page_def sample_env_def
        sample_user_def display_name_def)

subsection \<open>History merge\<close>

lemma keys_Map_set:
  "map fst (Map_set k v m) = (if k \<in> set (map fst m) then map fst m else map fst m @ [k])"
proof (induction m)
  case Nil
  show ?case by simp
next
  case (Cons e m)
  obtain k' v' where e: "e = (k', v')" by (cases e)
  show ?case
  proof (cases "k' = k")
    case True
    with e show ?thesis by simp
  next
    case False
    with e Cons show ?thesis by (simp split: if_splits)
  qed
qed

lemma distinct_Map_set: "distinct (map fst m) \<Longrightarrow> distinct (map fst (Map_set k v m))"
  by (simp add: keys_Map_set)

lemma map_of_Map_set: "map_of (Map_set k v m) = (map_of m)(k \<mapsto> v)"
  by (induction m) auto

lemma new_Map_snoc: "new_Map (es @ [(k, v)]) = Map_set k v (new_Map es)"
  by (simp add: new_Map_def)

lemma distinct_new_Map: "distinct (map fst (new_Map es))"
proof (induction es rule: rev_induct)
  case Nil
  show ?case by (simp add: new_Map_def)
next
  case (snoc e es)
  then show ?case by (cases e) (simp add: new_Map_snoc distinct_Map_set)
qed

lemma keys_new_Map: "set (map fst (new_Map es)) = set (map fst es)"
proof (induction es rule: rev_induct)
  case Nil
  show ?case by (simp add: new_Map_def)
next
  case (snoc e es)
  then show ?case by (cases e) (auto simp: new_Map_snoc keys_Map_set)
qed

lemma map_of_new_Map: "map_of (new_Map es) = map_of (rev es)"
proof (induction es rule: rev_induct)
  case Nil
  show ?case by (simp add: new_Map_def)
next
  case (snoc e es)
  then show ?case by (cases e) (simp add: new_Map_snoc map_of_Map_set)
qed

lemma entries_new_Map:
  "(k, v) \<in> set (new_Map es) \<longleftrightarrow> map_of (rev es) k = Some v"
  using distinct_new_Map [of es] map_of_new_Map [of es]
  by (metis map_of_eq_Some_iff)

lemma id_of_entry:
  assumes "(k, v) \<in> set (new_Map (map (\<lambda>m. (msg_id m, m)) xs))"
  shows "msg_id v = k \<and> v \<in> set xs"
proof -
  from assms have "map_of (rev (map (\<lambda>m. (msg_id m, m)) xs)) k = Some v"
    by (simp add: entries_new_Map)
  then have "(k, v) \<in> set (map (\<lambda>m. (msg_id m, m)) xs)"
    by (metis map_of_SomeD set_rev)
  then show ?thesis by auto
qed

lemma ids_of_values:
  "map msg_id (Map_values (new_Map (map (\<lambda>m. (msg_id m, m)) xs)))
     = map fst (new_Map (map (\<lambda>m. (msg_id m, m)) xs))"
  unfolding Map_values_def map_map
  by (rule map_cong [OF refl]) (auto dest: id_of_entry)

lemma distinct_ids_of_values:
  "distinct (map msg_id (Map_values (new_Map (map (\<lambda>m. (msg_id m, m)) xs))))"
  by (simp add: ids_of_values distinct_new_Map)

lemma set_ids_of_values:
  "set (map msg_id (Map_values (new_Map (map (\<lambda>m. (msg_id m, m)) xs)))) = msg_id ` set xs"
  by (simp only: ids_of_values keys_new_Map) (simp add: image_image)

lemma distinct_map_sort_key:
  "distinct (map f (sort_key f xs)) = distinct (map f xs)"
  by (simp add: distinct_map)

lemma merge_history_sorted: "sorted_wrt (<) (map msg_id (merge_history pages prev))"
proof -
  define ys where "ys = Map_values (new_Map (map (\<lambda>m. (msg_id m, m)) (concat pages @ prev)))"
  have "distinct (map msg_id ys)"
    unfolding ys_def by (rule distinct_ids_of_values)
  then have "distinct (map msg_id (sort_key msg_id ys))"
    by (simp only: distinct_map_sort_key)
  moreover have "sorted (map msg_id (sort_key msg_id ys))"
    by (rule sorted_sort_key)
  moreover have "merge_history pages prev = sort_key msg_id ys"
    by (simp only: merge_history_def Let_def ys_def)
  ultimately show ?thesis
    by (simp only: strict_sorted_iff)
qed

lemma merge_history_ids:
  "set (map msg_id (merge_history pages prev)) = msg_id ` (set (concat pages) \<union> set prev)"
proof -
  have "set (map msg_id (merge_history pages prev))
        = set (map msg_id (Map_values (new_Map (map (\<lambda>m. (msg_id m, m)) (concat pages @ prev)))))"
    by (simp add: merge_history_def)
  also have "\<dots> = msg_id ` set (concat pages @ prev)"
    by (rule set_ids_of_values)
  finally show ?thesis by (simp add: image_Un)
qed

lemma merge_history_latest:
  "m \<in> set (merge_history pages prev) \<longleftrightarrow> latest_copy (concat pages @ prev) (msg_id m) = Some m"
proof -
  let ?es = "map (\<lambda>m. (msg_id m, m)) (concat pages @ prev)"
  have "m \<in> set (merge_history pages prev) \<longleftrightarrow> m \<in> set (Map_values (new_Map ?es))"
    by (simp add: merge_history_def)
  also have "\<dots> \<longleftrightarrow> (\<exists>k. (k, m) \<in> set (new_Map ?es))"
    by (auto simp: Map_values_def image_iff) force
  also have "\<dots> \<longleftrightarrow> (msg_id m, m) \<in> set (new_Map ?es)"
    using id_of_entry by blast
  also have "\<dots> \<longleftrightarrow> latest_copy (concat pages @ prev) (msg_id m) = Some m"
    by (simp add: entries_new_Map latest_copy_def)
  finally show ?thesis .
qed

lemma distinct_remdups_adj_sorted:
  fixes xs :: "int list"
  shows "sorted xs \<Longrightarrow> distinct (remdups_adj xs)"
  by (induction xs rule: remdups_adj.induct) auto

lemma dedupe_sort_ids:
  fixes ids :: "int list"
  assumes "sorted xs" "distinct xs" "set xs = set ids"
  shows "xs = remdups_adj (sort ids)"
proof (rule sorted_distinct_set_unique)
  show "sorted xs" "distinct xs" by fact+
  show "sorted (remdups_adj (sort ids))" by (simp add: sorted_remdups_adj)
  show "distinct (remdups_adj (sort ids))" by (simp add: distinct_remdups_adj_sorted)
  show "set xs = set (remdups_adj (sort ids))" using assms(3) by (simp add: remdups_adj_set)
qed

lemma store_message_keeps_ids_distinct:
  assumes "distinct (map msg_id prev)"
  shows "distinct (map msg_id (store_message msg prev))"
  using assms by (simp add: ids_store_message)

lemma store_message_keeps_order:
  assumes "sorted_wrt (<) (map msg_id prev)" and "list_all (\<lambda>m. msg_id m < msg_id msg) prev"
  shows "sorted_wrt (<) (map msg_id (store_message msg prev))"
  using assms
  by (auto simp: ids_store_message sorted_wrt_append list_all_iff)

text \<open>
  C5. For every stored list and every set of fetched pages, the ids of the merged list
  are the ids of pages and stored list sorted and freed of duplicates; so the merged
  list is strictly ascending by id and no two of its messages share an id, whatever the
  order of the stored list and of the pages. Every merged message comes from the pages
  or the stored list, and of several copies with one id the last one (stored list
  after pages) is kept.
\<close>

theorem merge_history_sorted_unique:
  "map msg_id (merge_history pages prev) = remdups_adj (sort (map msg_id (concat pages @ prev)))
   \<and> sorted_wrt (<) (map msg_id (merge_history pages prev))
   \<and> distinct (map msg_id (merge_history pages prev))
   \<and> set (merge_history pages prev) \<subseteq> set (concat pages) \<union> set prev
   \<and> set (merge_history pages prev) = {m. latest_copy (concat pages @ prev) (msg_id m) = Some m}"
proof -
  have strict: "sorted_wrt (<) (map msg_id (merge_history pages prev))"
    by (rule merge_history_sorted)
  then have sd: "sorted (map msg_id (merge_history pages prev))"
    "distinct (map msg_id (merge_history pages prev))"
    by (simp_all add: strict_sorted_iff)
  have ids: "set (map msg_id (merge_history pages prev)) = set (map msg_id (concat pages @ prev))"
    using merge_history_ids [of pages prev] by (simp add: image_Un)
  have eq: "map msg_id (merge_history pages prev) = remdups_adj (sort (map msg_id (concat pages @ prev)))"
    using sd ids by (rule dedupe_sort_ids)
  have latest: "set (merge_history pages prev) = {m. latest_copy (concat pages @ prev) (msg_id m) = Some m}"
    using merge_history_latest by blast
  have sub: "set (merge_history pages prev) \<subseteq> set (concat pages) \<union> set prev"
  proof
    fix m assume "m \<in> set (merge_history pages prev)"
    then have "latest_copy (concat pages @ prev) (msg_id m) = Some m"
      by (simp add: merge_history_latest)
    then have "(msg_id m, m) \<in> set (map (\<lambda>m. (msg_id m, m)) (concat pages @ prev))"
      unfolding latest_copy_def by (metis map_of_SomeD set_rev)
    then show "m \<in> set (concat pages) \<union> set prev" by auto
  qed
  from eq strict sd(2) sub latest show ?thesis by blast
qed

theorem merge_history_sorted_unique_witness:
  "map msg_id
     (merge_history [[sample_message 3 None, sample_message 1 None]]
        [sample_message 2 None, sample_message 3 (Some 1)]) = [1, 2, 3]
   \<and> sorted_wrt (<) (map msg_id
        (merge_history [[sample_message 3 None, sample_message 1 None]]
           [sample_message 2 None, sample_message 3 (Some 1)]))
   \<and> merge_history [[sample_message 3 None, sample_message 1 None]]
        [sample_message 2 None, sample_message 3 (Some 1)]
       = [sample_message 1 None, sample_message 2 None, sample_message 3 (Some 1)]"
proof -
  have merged: "merge_history [[sample_message 3 None, sample_message 1 None]]
        [sample_message 2 None, sample_message 3 (Some 1)]
       = [sample_message 1 None, sample_message 2 None, sample_message 3 (Some 1)]"
    by (simp add: merge_history_def new_Map_def Map_values_def sample_message_def)
  from merge_history_sorted_unique
    [of "[[sample_message 3 None, sample_message 1 None]]"
        "[sample_message 2 None, sample_message 3 (Some 1)]"]
  have "map msg_id
     (merge_history [[sample_message 3 None, sample_message 1 None]]
        [sample_message 2 None, sample_message 3 (Some 1)]) = [1, 2, 3]"
    "sorted_wrt (<) (map msg_id
        (merge_history [[sample_message 3 None, sample_message 1 None]]
           [sample_message 2 None, sample_message 3 (Some 1)]))"
    by (simp_all add: sample_message_def)
  with merged show ?thesis by blast
qed

subsection \<open>Reactions\<close>

lemma first_seen_snoc:
  "first_seen (rs @ [r]) =
     (if reaction_emoji r \<in> set (first_seen rs) then first_seen rs
      else first_seen rs @ [reaction_emoji r])"
  by (simp add: first_seen_def)

lemma set_first_seen: "set (first_seen rs) = reaction_emoji ` set rs"
  by (simp add: first_seen_def)

lemma distinct_first_seen: "distinct (first_seen rs)"
  by (simp add: first_seen_def)

lemma group_emoji_tally [simp]: "group_emoji (tally me rs e) = e"
  by (simp add: tally_def Let_def)

lemma group_of_tallies:
  "group_of e (map (tally me rs) ks) = (if e \<in> set ks then Some (tally me rs e) else None)"
  by (induction ks) (auto simp: group_of_def)

lemma count_reaction_tally:
  "count_reaction me r (tally me rs e) = tally me (rs @ [r]) e"
  by (auto simp: count_reaction_def tally_def Let_def list_ex_iff)

lemma tally_fresh:
  assumes "reaction_emoji r \<notin> reaction_emoji ` set rs"
  shows "count_reaction me r
           \<lparr>group_emoji = reaction_emoji r, group_count = 0, group_users = [],
            group_avatars = [], group_hasMine = False\<rparr>
         = tally me (rs @ [r]) (reaction_emoji r)"
proof -
  have "filter (\<lambda>x. reaction_emoji x = reaction_emoji r) rs = []"
    unfolding filter_empty_conv using assms by (metis imageI)
  then show ?thesis
    by (simp add: count_reaction_def tally_def)
qed

lemma add_to_groups_tallies:
  "add_to_groups me r (map (tally me rs) (first_seen rs))
     = map (tally me (rs @ [r])) (first_seen (rs @ [r]))"
proof (cases "reaction_emoji r \<in> set (first_seen rs)")
  case True
  then show ?thesis
    by (simp add: add_to_groups_def group_of_tallies first_seen_snoc count_reaction_tally)
next
  case False
  then have "reaction_emoji r \<notin> reaction_emoji ` set rs"
    by (simp add: set_first_seen)
  from tally_fresh [OF this] False show ?thesis
    by (simp add: add_to_groups_def group_of_tallies first_seen_snoc count_reaction_tally)
qed

lemma forEach_reaction_fold:
  assumes "\<not> list_ex (\<lambda>r. reaction_emoji r \<in> set inherited_keys) rs"
  shows "forEach_reaction me rs groups = Inr (foldl (\<lambda>g r. add_to_groups me r g) groups rs)"
  using assms by (induction rs arbitrary: groups) simp_all

lemma fold_tallies:
  "foldl (\<lambda>g r. add_to_groups me r g) [] rs = map (tally me rs) (first_seen rs)"
proof (induction rs rule: rev_induct)
  case Nil
  show ?case by (simp add: first_seen_def)
next
  case (snoc r rs)
  then show ?case by (simp add: add_to_groups_tallies)
qed

lemma groupReactions_tallies:
  assumes "\<not> list_ex (\<lambda>r. reaction_emoji r \<in> set inherited_keys) rs"
  shows "groupReactions me (Some rs) = Inr (map (tally me rs) (first_seen rs))"
  using assms by (simp add: groupReactions_def forEach_reaction_fold fold_tallies)

lemma groupReactions_inherited:
  assumes "list_ex (\<lambda>r. reaction_emoji r \<in> set inherited_keys) rs"
  shows "forEach_reaction me rs groups = Inl TypeError"
  using assms by (induction rs arbitrary: groups) auto

lemma add_reaction_idem: "add_reaction mid r (add_reaction mid r m) = add_reaction mid r m"
  by (simp add: add_reaction_def Let_def same_reaction_def)

lemma on_reaction_added_idem:
  "on_reaction_added mid r (on_reaction_added mid r st) = on_reaction_added mid r st"
  by (simp add: on_reaction_added_def add_reaction_idem)

lemma reactions_after_add:
  assumes "msg_id m = mid"
  shows "msg_reactions (add_reaction mid r (add_reaction mid r m))
         = Some (if list_ex (same_reaction (reaction_user_id r) (reaction_emoji r))
                      (or_empty (msg_reactions m))
                 then or_empty (msg_reactions m) else or_empty (msg_reactions m) @ [r])"
proof (cases "msg_reactions m")
  case None
  with assms show ?thesis
    by (simp add: add_reaction_idem) (simp add: add_reaction_def)
next
  case (Some rs)
  with assms show ?thesis
    by (simp add: add_reaction_idem) (simp add: add_reaction_def)
qed

lemma split_count:
  "length (filter (\<lambda>x. reaction_emoji x = e) rs)
     = length (filter (same_reaction u e) rs) + others_with e u rs"
  by (induction rs) (auto simp: same_reaction_def others_with_def)

lemma others_with_snoc:
  "others_with (reaction_emoji r) (reaction_user_id r) (rs @ [r])
     = others_with (reaction_emoji r) (reaction_user_id r) rs"
  by (simp add: others_with_def)

lemma one_stored:
  assumes "length (filter (same_reaction u e) rs) \<le> 1"
    and "reaction_user_id r = u" and "reaction_emoji r = e"
  shows "length (filter (same_reaction u e)
           (if list_ex (same_reaction u e) rs then rs else rs @ [r])) = 1"
proof (cases "list_ex (same_reaction u e) rs")
  case True
  then have "filter (same_reaction u e) rs \<noteq> []"
    by (simp add: list_ex_iff filter_empty_conv)
  then have "0 < length (filter (same_reaction u e) rs)" by simp
  with assms(1) have "length (filter (same_reaction u e) rs) = 1" by linarith
  with True show ?thesis by simp
next
  case False
  then have "filter (same_reaction u e) rs = []"
    by (simp add: list_ex_iff filter_empty_conv)
  with assms False show ?thesis by (simp add: same_reaction_def)
qed

lemma shown_for_tally:
  assumes "msg_reactions m = Some rs"
    and "\<not> list_ex (\<lambda>x. reaction_emoji x \<in> set inherited_keys) rs"
    and "e \<in> reaction_emoji ` set rs"
  shows "shown_for me e m
         = Some (length (filter (\<lambda>x. reaction_emoji x = e) rs),
                 list_ex (\<lambda>x. reaction_emoji x = e \<and> is_user (reaction_user_id x) me) rs)"
  using assms
  by (simp add: shown_for_def groupReactions_tallies group_of_tallies set_first_seen
        tally_def Let_def list_ex_iff conj_commute)
     blast

text \<open>
  C6, as the code has it. Take a stored message that holds the pair (user, emoji) of a
  reaction at most once, all emoji being keys of their own in \<^verbatim>\<open>groups\<close>. Handling
  \<^verbatim>\<open>reaction_added\<close> twice for the pair leaves the state that handling it once
  leaves, and exactly one reaction with the pair on the message. The display then shows
  for the emoji a count of one plus the number of other users' reactions with that
  emoji (so \<open>1\<close> when there are none), with \<^verbatim>\<open>hasMine\<close> true when the user is the
  signed-in one. \<^verbatim>\<open>reaction_removed\<close> for a pair the message does not hold leaves its
  list of reactions as it was.
\<close>

theorem reactions_added_twice:
  assumes target: "msg_id m = mid"
    and unique: "length (filter (same_reaction (reaction_user_id r) (reaction_emoji r))
                   (or_empty (msg_reactions m))) \<le> 1"
    and own_keys: "\<not> list_ex (\<lambda>x. reaction_emoji x \<in> set inherited_keys)
                     (r # or_empty (msg_reactions m))"
  shows "on_reaction_added mid r (on_reaction_added mid r st) = on_reaction_added mid r st
    \<and> length (filter (same_reaction (reaction_user_id r) (reaction_emoji r))
         (or_empty (msg_reactions (add_reaction mid r (add_reaction mid r m))))) = 1
    \<and> shown_for me (reaction_emoji r) (add_reaction mid r (add_reaction mid r m))
        = Some (1 + others_with (reaction_emoji r) (reaction_user_id r) (or_empty (msg_reactions m)),
                is_user (reaction_user_id r) me
                \<or> list_ex (\<lambda>x. reaction_emoji x = reaction_emoji r \<and> is_user (reaction_user_id x) me)
                     (or_empty (msg_reactions m)))
    \<and> (\<not> list_ex (same_reaction uid emoji) (or_empty (msg_reactions m)) \<longrightarrow>
         or_empty (msg_reactions (remove_reaction mid uid emoji m)) = or_empty (msg_reactions m))"
proof -
  let ?u = "reaction_user_id r" and ?e = "reaction_emoji r"
  let ?rs = "or_empty (msg_reactions m)"
  let ?rs' = "if list_ex (same_reaction ?u ?e) ?rs then ?rs else ?rs @ [r]"
  let ?m' = "add_reaction mid r (add_reaction mid r m)"
  have after: "msg_reactions ?m' = Some ?rs'"
    using target by (rule reactions_after_add)
  have one: "length (filter (same_reaction ?u ?e) ?rs') = 1"
    using unique by (rule one_stored) simp_all
  have keys: "\<not> list_ex (\<lambda>x. reaction_emoji x \<in> set inherited_keys) ?rs'"
    using own_keys by (simp add: list_ex_iff)
  have present: "?e \<in> reaction_emoji ` set ?rs'"
    by (auto simp: list_ex_iff same_reaction_def image_iff) metis
  have others: "others_with ?e ?u ?rs' = others_with ?e ?u ?rs"
    by (simp add: others_with_snoc)
  have mine: "list_ex (\<lambda>x. reaction_emoji x = ?e \<and> is_user (reaction_user_id x) me) ?rs'
      = (is_user ?u me \<or> list_ex (\<lambda>x. reaction_emoji x = ?e \<and> is_user (reaction_user_id x) me) ?rs)"
    by (auto simp: list_ex_iff same_reaction_def)
  have "shown_for me ?e ?m'
        = Some (length (filter (\<lambda>x. reaction_emoji x = ?e) ?rs'),
                list_ex (\<lambda>x. reaction_emoji x = ?e \<and> is_user (reaction_user_id x) me) ?rs')"
    using after keys present by (rule shown_for_tally)
  also have "length (filter (\<lambda>x. reaction_emoji x = ?e) ?rs') = 1 + others_with ?e ?u ?rs"
    using split_count [of ?e ?rs' ?u] one others by simp
  finally have shown: "shown_for me ?e ?m'
      = Some (1 + others_with ?e ?u ?rs,
              is_user ?u me \<or> list_ex (\<lambda>x. reaction_emoji x = ?e \<and> is_user (reaction_user_id x) me) ?rs)"
    by (simp only: mine)
  have removed: "or_empty (msg_reactions (remove_reaction mid uid emoji m)) = ?rs"
    if "\<not> list_ex (same_reaction uid emoji) ?rs"
    using that by (simp add: remove_reaction_def list_ex_iff)
  from on_reaction_added_idem one shown removed show ?thesis
    by (simp only: after or_empty.simps) blast
qed

theorem reactions_added_twice_witness:
  "msg_id (sample_message 1 None) = 1
   \<and> length (filter (same_reaction (reaction_user_id (sample_reaction 1))
          (reaction_emoji (sample_reaction 1)))
        (or_empty (msg_reactions (sample_message 1 None)))) \<le> 1
   \<and> \<not> list_ex (\<lambda>x. reaction_emoji x \<in> set inherited_keys)
         (sample_reaction 1 # or_empty (msg_reactions (sample_message 1 None)))
   \<and> shown_for (Some (sample_user 1)) ''thumbs_up''
        (add_reaction 1 (sample_reaction 1) (add_reaction 1 (sample_reaction 1)
           (sample_message 1 None))) = Some (1, True)
   \<and> \<not> list_ex (same_reaction 1 ''thumbs_up'') (or_empty (msg_reactions (sample_message 1 None)))
   \<and> or_empty (msg_reactions (remove_reaction 1 1 ''thumbs_up'' (sample_message 1 None))) = []"
proof -
  have target: "msg_id (sample_message 1 None) = 1"
    by (simp add: sample_message_def)
  have unique: "length (filter (same_reaction (reaction_user_id (sample_reaction 1))
          (reaction_emoji (sample_reaction 1)))
        (or_empty (msg_reactions (sample_message 1 None)))) \<le> 1"
    by (simp add: sample_message_def)
  have own_keys: "\<not> list_ex (\<lambda>x. reaction_emoji x \<in> set inherited_keys)
         (sample_reaction 1 # or_empty (msg_reactions (sample_message 1 None)))"
    by (simp add: sample_message_def sample_reaction_def inherited_keys_def)
  have absent: "\<not> list_ex (same_reaction 1 ''thumbs_up'')
      (or_empty (msg_reactions (sample_message 1 None)))"
    by (simp add: sample_message_def)
  have none: "or_empty (msg_reactions (sample_message 1 None)) = []"
    by (simp add: sample_message_def)
  have emoji: "reaction_emoji (sample_reaction 1) = ''thumbs_up''"
    by (simp add: sample_reaction_def)
  from reactions_added_twice [OF target unique own_keys, where me = "Some (sample_user 1)"
      and uid = 1 and emoji = "''thumbs_up''"]
    target unique own_keys absent
  show ?thesis
    by (simp add: none emoji others_with_def sample_reaction_def sample_user_def)
qed

text \<open>
  The specification's wording gives, for every message, the count \<open>1\<close> and one stored
  reaction. On a message that another user has already reacted to with the emoji, the
  count after the two frames is \<open>2\<close>; and on a message that already holds the pair
  twice, two reactions with the pair stay stored.
\<close>

theorem reaction_count_with_other_users:
  "shown_for (Some (sample_user 1)) ''thumbs_up''
     (add_reaction 1 (sample_reaction 1) (add_reaction 1 (sample_reaction 1)
        ((sample_message 1 None)\<lparr>msg_reactions := Some [sample_reaction 2]\<rparr>)))
   = Some (2, True)
   \<and> length (filter (same_reaction 1 ''thumbs_up'')
        (or_empty (msg_reactions
           (add_reaction 1 (sample_reaction 1) (add_reaction 1 (sample_reaction 1)
              ((sample_message 1 None)
                 \<lparr>msg_reactions := Some [sample_reaction 1, sample_reaction 1]\<rparr>)))))) = 2"
  by (simp add: shown_for_def groupReactions_def add_to_groups_def count_reaction_def group_of_def
        add_reaction_def same_reaction_def sample_reaction_def sample_message_def sample_user_def
        inherited_keys_def)

text \<open>
  An emoji that names a member inherited from \<^verbatim>\<open>Object.prototype\<close> makes
  \<^verbatim>\<open>groupReactions\<close> throw.
\<close>

lemma groupReactions_throws_on_inherited_key:
  "groupReactions me (Some [(sample_reaction 1)\<lparr>reaction_emoji := ''constructor''\<rparr>])
     = Inl TypeError"
  by (simp add: groupReactions_def inherited_keys_def)

subsection \<open>Messages received while elsewhere\<close>

lemma onMessageReceived_truncate:
  "onMessageReceived env d = onMessageReceived env (msgData.truncate d)"
  by (simp add: onMessageReceived_def document_id_def msgData.truncate_def Let_def)

lemma elsewhere_iff:
  "path_channel env \<noteq> Some 0 \<Longrightarrow> elsewhere env cid = (path_channel env \<noteq> Some cid)"
  by (cases "path_channel env") (auto simp: elsewhere_def)

lemma onMessageReceived_viewing:
  assumes "path_channel env \<noteq> Some 0" and "path_channel env = Some (md_channel_id d)"
  shows "onMessageReceived env d = []"
  using assms elsewhere_iff [OF assms(1), of "md_channel_id d"]
  by (simp add: onMessageReceived_def Let_def)

lemma onMessageReceived_elsewhere:
  assumes "path_channel env \<noteq> Some 0" and "path_channel env \<noteq> Some (md_channel_id d)"
  shows "list_ex is_sound (onMessageReceived env d)
           = (notify_sound (layout_user env) \<and> \<not> isMuted env (md_channel_id d))"
    and "list_ex is_system_notification (onMessageReceived env d)
           = (shouldNotify (layout_user env) \<and> \<not> truthy_num (document_id d)
              \<and> \<not> isMuted env (md_channel_id d))"
    and "list_ex is_toast (onMessageReceived env d)
           = (md_is_mentioned d = Some True \<and> shouldNotify (layout_user env)
              \<and> \<not> truthy_num (document_id d) \<and> \<not> isMuted env (md_channel_id d))"
    and "unread_calls (onMessageReceived env d) = [md_channel_id d]"
  using assms elsewhere_iff [OF assms(1), of "md_channel_id d"]
  by (simp_all add: onMessageReceived_def Let_def)

lemma unread_after_calls:
  "unread_after add calls store = fold add (unread_calls calls) store"
  by (induction add calls store rule: unread_after.induct) simp_all

text \<open>
  C3, as the code has it. On a route other than \<^verbatim>\<open>/chat/0\<close>: when the user is
  viewing the message's channel the handler does nothing at all. Otherwise the sound is
  played exactly when the user has \<^verbatim>\<open>notify_sound\<close> and the channel is not muted;
  the OS notification is sent exactly when \<^verbatim>\<open>notify_browser\<close> is not false, the
  message shares no document and the channel is not muted; and the in-app toast is
  added exactly when, on top of that, the event is a mention. The handler reads the
  channel id, the mention flag and the message body only, so who wrote the message
  plays no part.
\<close>

theorem notifications_for_message:
  assumes "path_channel env \<noteq> Some 0"
  shows "(path_channel env = Some (md_channel_id d) \<longrightarrow> onMessageReceived env d = [])
    \<and> (path_channel env \<noteq> Some (md_channel_id d) \<longrightarrow>
         list_ex is_sound (onMessageReceived env d)
           = (notify_sound (layout_user env) \<and> \<not> isMuted env (md_channel_id d))
       \<and> list_ex is_system_notification (onMessageReceived env d)
           = (shouldNotify (layout_user env) \<and> \<not> truthy_num (document_id d)
              \<and> \<not> isMuted env (md_channel_id d))
       \<and> list_ex is_toast (onMessageReceived env d)
           = (md_is_mentioned d = Some True \<and> shouldNotify (layout_user env)
              \<and> \<not> truthy_num (document_id d) \<and> \<not> isMuted env (md_channel_id d)))
    \<and> onMessageReceived env d = onMessageReceived env (msgData.truncate d)"
  using onMessageReceived_viewing [OF assms, of d] onMessageReceived_elsewhere(1-3) [OF assms, of d]
    onMessageReceived_truncate [of env d]
  by blast

theorem notifications_for_message_witness:
  "path_channel sample_layout \<noteq> Some 0
   \<and> path_channel sample_layout = Some (md_channel_id (sample_payload 5))
   \<and> onMessageReceived sample_layout (sample_payload 5) = []
   \<and> path_channel sample_layout \<noteq> Some (md_channel_id (sample_payload 2))
   \<and> list_ex is_sound (onMessageReceived sample_layout (sample_payload 2))
   \<and> list_ex is_system_notification (onMessageReceived sample_layout (sample_payload 2))
   \<and> \<not> list_ex is_toast (onMessageReceived sample_layout (sample_payload 2))"
proof -
  have route: "path_channel sample_layout \<noteq> Some 0"
    by (simp add: sample_layout_def)
  have here: "path_channel sample_layout = Some (md_channel_id (sample_payload 5))"
    by (simp add: sample_layout_def sample_payload_def)
  have there: "path_channel sample_layout \<noteq> Some (md_channel_id (sample_payload 2))"
    by (simp add: sample_layout_def sample_payload_def)
  have facts: "notify_sound (layout_user sample_layout)" "shouldNotify (layout_user sample_layout)"
    "\<not> truthy_num (document_id (sample_payload 2))"
    "\<not> isMuted sample_layout (md_channel_id (sample_payload 2))"
    "md_is_mentioned (sample_payload 2) \<noteq> Some True"
    by (simp_all add: sample_layout_def sample_payload_def sample_user_def sample_channel_def
          notify_sound_def shouldNotify_def document_id_def isMuted_def)
  from notifications_for_message [OF route, of "sample_payload 5"] here
  have viewing: "onMessageReceived sample_layout (sample_payload 5) = []"
    by blast
  from notifications_for_message [OF route, of "sample_payload 2"] there facts
  have elsewhere: "list_ex is_sound (onMessageReceived sample_layout (sample_payload 2))"
    "list_ex is_system_notification (onMessageReceived sample_layout (sample_payload 2))"
    "\<not> list_ex is_toast (onMessageReceived sample_layout (sample_payload 2))"
    by blast+
  from route here there viewing elsewhere show ?thesis by blast
qed

text \<open>
  In the specification's wording the toast is shown for every message that is not
  muted, a message written by the signed-in user is silent, and the OS notification
  depends on permission and preference only. For a channel that is neither muted nor
  open: a message that is no mention gets no toast; a payload that names the signed-in
  user as its author gets sound and OS notification; and a message that shares a
  document gets no OS notification although the user has them enabled.
\<close>

theorem notification_fan_out_differs:
  "\<not> isMuted sample_layout 2
   \<and> path_channel sample_layout \<noteq> Some 2
   \<and> \<not> list_ex is_toast (onMessageReceived sample_layout (sample_payload 2))
   \<and> is_user (md_sender_id (own_payload 2)) (layout_user sample_layout)
   \<and> list_ex is_sound (onMessageReceived sample_layout (own_payload 2))
   \<and> list_ex is_system_notification (onMessageReceived sample_layout (own_payload 2))
   \<and> shouldNotify (layout_user sample_layout)
   \<and> \<not> list_ex is_system_notification (onMessageReceived sample_layout (document_payload 2))"
  by (simp add: onMessageReceived_def Let_def sample_layout_def sample_payload_def
        own_payload_def document_payload_def isMuted_def sample_channel_def sample_user_def
        elsewhere_def document_id_def notify_sound_def shouldNotify_def)

lemma route_zero_counts_as_elsewhere:
  "path_channel env = Some 0 \<Longrightarrow> elsewhere env cid"
  by (simp add: elsewhere_def)

text \<open>
  C4, as the code has it. On a route other than \<^verbatim>\<open>/chat/0\<close>: the handler calls
  \<^verbatim>\<open>addUnread\<close> for the message's channel, once, exactly when that channel is not the
  one open, and for no other channel; so the unread store is \<^verbatim>\<open>addUnread\<close> of the
  old one in the first case and the old one in the second, whatever \<^verbatim>\<open>addUnread\<close>
  does. The payload's author is not among the fields the handler reads, so the author
  makes no difference.
\<close>

theorem unread_incremented_elsewhere:
  assumes "path_channel env \<noteq> Some 0"
  shows "unread_calls (onMessageReceived env d)
           = (if path_channel env = Some (md_channel_id d) then [] else [md_channel_id d])
    \<and> unread_after add (onMessageReceived env d) store
        = (if path_channel env = Some (md_channel_id d) then store
           else add (md_channel_id d) store)
    \<and> onMessageReceived env d = onMessageReceived env (msgData.truncate d)"
proof -
  have calls: "unread_calls (onMessageReceived env d)
           = (if path_channel env = Some (md_channel_id d) then [] else [md_channel_id d])"
    using onMessageReceived_viewing [OF assms, of d] onMessageReceived_elsewhere(4) [OF assms, of d]
    by simp
  have "unread_after add (onMessageReceived env d) store
        = (if path_channel env = Some (md_channel_id d) then store
           else add (md_channel_id d) store)"
    unfolding unread_after_calls calls by simp
  with calls onMessageReceived_truncate [of env d] show ?thesis by blast
qed

theorem unread_incremented_elsewhere_witness:
  "path_channel sample_layout \<noteq> Some 0
   \<and> unread_calls (onMessageReceived sample_layout (sample_payload 2)) = [2]
   \<and> unread_count
       (unread_after addUnread (onMessageReceived sample_layout (sample_payload 2)) Map.empty) 2 = 1
   \<and> unread_calls (onMessageReceived sample_layout (sample_payload 5)) = []
   \<and> unread_count
       (unread_after addUnread (onMessageReceived sample_layout (sample_payload 5)) Map.empty) 5 = 0"
proof -
  have route: "path_channel sample_layout \<noteq> Some 0"
    by (simp add: sample_layout_def)
  have ids: "md_channel_id (sample_payload 2) = 2" "md_channel_id (sample_payload 5) = 5"
    "path_channel sample_layout = Some 5"
    by (simp_all add: sample_layout_def sample_payload_def)
  note other = unread_incremented_elsewhere [OF route, of "sample_payload 2" addUnread Map.empty]
  note viewed = unread_incremented_elsewhere [OF route, of "sample_payload 5" addUnread Map.empty]
  have calls: "unread_calls (onMessageReceived sample_layout (sample_payload 2)) = [2]"
    "unread_calls (onMessageReceived sample_layout (sample_payload 5)) = []"
    using other [THEN conjunct1] viewed [THEN conjunct1] by (simp_all add: ids)
  have counted: "unread_count
      (unread_after addUnread (onMessageReceived sample_layout (sample_payload 2)) Map.empty) 2 = 1"
    using other [THEN conjunct2, THEN conjunct1] by (simp add: ids unread_count_def addUnread_def)
  have kept: "unread_count
      (unread_after addUnread (onMessageReceived sample_layout (sample_payload 5)) Map.empty) 5 = 0"
    using viewed [THEN conjunct2, THEN conjunct1] by (simp add: ids unread_count_def)
  from route calls counted kept show ?thesis by blast
qed

text \<open>
  In the specification's wording a message written by the signed-in user is never
  counted. A payload that names the signed-in user as its author, for a channel that is
  not open, is counted like any other.
\<close>

theorem own_message_counts_as_unread:
  "is_user (md_sender_id (own_payload 2)) (layout_user sample_layout)
   \<and> path_channel sample_layout \<noteq> Some 2
   \<and> unread_calls (onMessageReceived sample_layout (own_payload 2)) = [2]
   \<and> unread_count
       (unread_after addUnread (onMessageReceived sample_layout (own_payload 2)) Map.empty) 2 = 1"
  by (simp add: onMessageReceived_def Let_def sample_layout_def own_payload_def isMuted_def
        sample_channel_def sample_user_def elsewhere_def document_id_def notify_sound_def
        shouldNotify_def unread_count_def addUnread_def)

end
